theory Spec2Isabelle
  imports Main "HOL-Library.Word" "HOL-Library.AList"
begin

unbundle bit_operations_syntax

section \<open>Values, bytes and errors\<close>

text \<open>
  \<^verbatim>\<open>Store.values\<close> is a Go \<^verbatim>\<open>map[interface{}]interface{}\<close>. The dynamic values
  it can hold are modelled by a closed datatype: the nil interface, \<^verbatim>\<open>bool\<close>,
  \<^verbatim>\<open>int\<close> (64 bits), \<^verbatim>\<open>string\<close> (a byte sequence), and \<open>GOther n\<close>, a value of
  some comparable type that was never registered with \<^verbatim>\<open>encoding/gob\<close> (a struct of
  the application, say). Bytes are \<^typ>\<open>char\<close>s, read as numbers by \<open>of_char\<close>.
\<close>

datatype gval = GNil | GBool bool | GInt "64 word" | GString string | GOther nat

type_synonym bytes = "char list"

datatype error =
    ErrEOF
  | ErrUnexpectedEOF
  | ErrBadUint
  | ErrBadLength
  | ErrBadTypeDef
  | ErrExtraData
  | ErrTypeMismatch
  | ErrCorrupted
  | ErrNameTooLong
  | ErrTypeNotRegistered nat
  | ErrNameNotRegistered string
  | ErrKeyNotFound string
  | ErrConnection
  | ErrTypeAssertion

section \<open>The gob wire format used by Serialize and Deserialize\<close>

text \<open>
  \<^verbatim>\<open>Store.Serialize\<close> and \<^verbatim>\<open>Store.Deserialize\<close> hand the map to
  \<^verbatim>\<open>gob.NewEncoder(buf).Encode\<close> and \<^verbatim>\<open>gob.NewDecoder(buf).Decode\<close>. The
  functions of this section follow the functions of the same names in Go's
  \<^verbatim>\<open>encoding/gob\<close> for that one call: one stream, holding the type definition of
  \<^verbatim>\<open>map[interface{}]interface{}\<close> and one value message.

  Left out: gob's cap on the size of a message (\<^verbatim>\<open>tooBig\<close>, $2^{33}$ bytes), concrete
  types other than \<^verbatim>\<open>bool\<close>, \<^verbatim>\<open>int\<close> and \<^verbatim>\<open>string\<close> (their names are treated
  as not registered), and streams that define another type than one map type before the
  value (they are rejected).
\<close>

subsection \<open>Unsigned and signed integers\<close>

text \<open>
  \<^verbatim>\<open>encodeUint\<close>: a value below 128 is one byte; otherwise the minimal big-endian bytes of
  the value, preceded by one byte holding their count, negated.
\<close>

function be_bytes :: "nat \<Rightarrow> bytes" where
  "be_bytes n = (if n = 0 then [] else be_bytes (n div 256) @ [char_of n])"
  by pat_completeness auto
termination
  by (relation "measure id") auto

declare be_bytes.simps [simp del]

definition be_val :: "bytes \<Rightarrow> nat" where
  "be_val bs = foldl (\<lambda>x b. x * 256 + of_char b) 0 bs"

definition encodeUint :: "64 word \<Rightarrow> bytes" where
  "encodeUint x =
     (if x \<le> 0x7F then [char_of (unat x)]
      else let bs = be_bytes (unat x) in char_of (256 - length bs) # bs)"

text \<open>
  \<^verbatim>\<open>decoderState.decodeUint\<close>: a first byte up to \<^verbatim>\<open>0x7f\<close> is the value; otherwise
  \<^verbatim>\<open>n := -int(int8(b))\<close> bytes follow, at most 8.
\<close>

fun decodeUint :: "bytes \<Rightarrow> error + (64 word \<times> bytes)" where
  "decodeUint [] = Inl ErrEOF"
| "decodeUint (b # buf) =
     (if (of_char b :: nat) \<le> 0x7F then Inr (of_nat (of_char b), buf)
      else let n = 256 - (of_char b :: nat) in
        if n > 8 then Inl ErrBadUint
        else if length buf < n then Inl ErrBadLength
        else Inr (of_nat (be_val (take n buf)), drop n buf))"

text \<open>
  \<^verbatim>\<open>encodeInt\<close> and \<^verbatim>\<open>decodeInt\<close>: bit 0 says whether the value is complemented, the
  other bits hold it.
\<close>

definition encodeInt :: "64 word \<Rightarrow> bytes" where
  "encodeInt i =
     encodeUint (if i <s 0 then push_bit 1 (NOT i) OR 1 else push_bit 1 i)"

definition decodeInt :: "bytes \<Rightarrow> error + (64 word \<times> bytes)" where
  "decodeInt buf =
     (case decodeUint buf of
        Inl e \<Rightarrow> Inl e
      | Inr (x, rest) \<Rightarrow>
          if x AND 1 \<noteq> 0 then Inr (NOT (drop_bit 1 x), rest) else Inr (drop_bit 1 x, rest))"

subsection \<open>Interface values\<close>

text \<open>
  The concrete types gob has registered by itself (\<^verbatim>\<open>registerBasics\<close>), as far as the
  value datatype goes, with their names and type ids (\<^verbatim>\<open>tBool = 1\<close>, \<^verbatim>\<open>tInt = 2\<close>,
  \<^verbatim>\<open>tString = 6\<close>).
\<close>

datatype gtype = TBool | TInt | TString

fun typeName :: "gtype \<Rightarrow> string" where
  "typeName TBool = ''bool''"
| "typeName TInt = ''int''"
| "typeName TString = ''string''"

fun typeId :: "gtype \<Rightarrow> 64 word" where
  "typeId TBool = 1"
| "typeId TInt = 2"
| "typeId TString = 6"

definition nameToConcreteType :: "string \<Rightarrow> gtype option" where
  "nameToConcreteType name =
     (if name = ''bool'' then Some TBool
      else if name = ''int'' then Some TInt
      else if name = ''string'' then Some TString
      else None)"

text \<open>The encoding of a concrete value: \<^verbatim>\<open>encBool\<close>, \<^verbatim>\<open>encInt\<close>, \<^verbatim>\<open>encString\<close>.\<close>

definition encString :: "string \<Rightarrow> bytes" where
  "encString s = encodeUint (of_nat (length s)) @ s"

definition writeMessage :: "bytes \<Rightarrow> bytes" where
  "writeMessage b = encodeUint (of_nat (length b)) @ b"

text \<open>
  \<^verbatim>\<open>encodeInterface\<close>: a nil interface is the empty name. Otherwise the name of the
  concrete type (an error if the type is not registered), its type id, and the value as
  a message of its own: a byte count, the zero field delta of a singleton, the value.
\<close>

definition interfaceBytes :: "gtype \<Rightarrow> bytes \<Rightarrow> bytes" where
  "interfaceBytes t val =
     encString (typeName t) @ encodeInt (typeId t) @ writeMessage (encodeUint 0 @ val)"

fun encodeInterface :: "gval \<Rightarrow> error + bytes" where
  "encodeInterface GNil = Inr (encodeUint 0)"
| "encodeInterface (GBool b) = Inr (interfaceBytes TBool (encodeUint (if b then 1 else 0)))"
| "encodeInterface (GInt i) = Inr (interfaceBytes TInt (encodeInt i))"
| "encodeInterface (GString s) = Inr (interfaceBytes TString (encString s))"
| "encodeInterface (GOther n) = Inl (ErrTypeNotRegistered n)"

text \<open>
  \<^verbatim>\<open>decodeInterface\<close>: the name; the empty name is nil; a name that is not registered
  is an error; then the type id, the byte count (read and ignored), and the value,
  decoded by \<^verbatim>\<open>decodeValue\<close> into the registered type.
\<close>

fun decValue :: "gtype \<Rightarrow> bytes \<Rightarrow> error + (gval \<times> bytes)" where
  "decValue TBool buf =
     (case decodeUint buf of Inl e \<Rightarrow> Inl e | Inr (x, rest) \<Rightarrow> Inr (GBool (x \<noteq> 0), rest))"
| "decValue TInt buf =
     (case decodeInt buf of Inl e \<Rightarrow> Inl e | Inr (i, rest) \<Rightarrow> Inr (GInt i, rest))"
| "decValue TString buf =
     (case decodeUint buf of
        Inl e \<Rightarrow> Inl e
      | Inr (n, rest) \<Rightarrow>
          if length rest < unat n then Inl ErrBadLength
          else Inr (GString (take (unat n) rest), drop (unat n) rest))"

definition decodeValue :: "64 word \<Rightarrow> gtype \<Rightarrow> bytes \<Rightarrow> error + (gval \<times> bytes)" where
  "decodeValue wireId t buf =
     (if wireId \<noteq> typeId t then Inl ErrTypeMismatch
      else (case decodeUint buf of
        Inl e \<Rightarrow> Inl e
      | Inr (delta, rest) \<Rightarrow> if delta \<noteq> 0 then Inl ErrCorrupted else decValue t rest))"

definition decodeInterface :: "bytes \<Rightarrow> error + (gval \<times> bytes)" where
  "decodeInterface buf =
     (case decodeUint buf of
        Inl e \<Rightarrow> Inl e
      | Inr (nr, buf1) \<Rightarrow>
          if unat nr > 2147483648 \<or> unat nr > length buf1 then Inl ErrBadLength
          else let name = take (unat nr) buf1; buf2 = drop (unat nr) buf1 in
            if name = [] then Inr (GNil, buf2)
            else if length name > 1024 then Inl ErrNameTooLong
            else (case nameToConcreteType name of
              None \<Rightarrow> Inl (ErrNameNotRegistered name)
            | Some t \<Rightarrow>
                (case decodeInt buf2 of
                   Inl e \<Rightarrow> Inl e
                 | Inr (concreteId, buf3) \<Rightarrow>
                     (case decodeUint buf3 of
                        Inl e \<Rightarrow> Inl e
                      | Inr (count, buf4) \<Rightarrow> decodeValue concreteId t buf4))))"

subsection \<open>Maps\<close>

text \<open>
  A Go map is an association list with distinct keys; its order stands for the order in
  which \<^verbatim>\<open>range\<close> happens to visit the entries. \<^verbatim>\<open>encodeMap\<close> writes the number of
  entries and then each key and element; the first error ends the encoding.
\<close>

type_synonym gmap = "(gval \<times> gval) list"

fun encodeElems :: "gmap \<Rightarrow> error + bytes" where
  "encodeElems [] = Inr []"
| "encodeElems ((k, v) # m) =
     (case encodeInterface k of
        Inl e \<Rightarrow> Inl e
      | Inr bk \<Rightarrow>
          (case encodeInterface v of
             Inl e \<Rightarrow> Inl e
           | Inr bv \<Rightarrow>
               (case encodeElems m of Inl e \<Rightarrow> Inl e | Inr r \<Rightarrow> Inr (bk @ bv @ r))))"

definition encodeMap :: "gmap \<Rightarrow> error + bytes" where
  "encodeMap m =
     (case encodeElems m of
        Inl e \<Rightarrow> Inl e
      | Inr r \<Rightarrow> Inr (encodeUint (of_nat (length m)) @ r))"

text \<open>
  \<^verbatim>\<open>decodeMap\<close> allocates a map only when the destination is nil; \<^verbatim>\<open>Store.values\<close>
  never is, so every decoded pair is stored into the map that is already there
  (\<^verbatim>\<open>value.SetMapIndex(key, elem)\<close>), one pair at a time. An error in the middle of the
  loop leaves the pairs stored so far in the map. The count is read as
  \<^verbatim>\<open>n := int(state.decodeUint())\<close>: from $2^{63}$ on it is negative, and the loop
  \<^verbatim>\<open>for i := 0; i < n; i++\<close> does not run.
\<close>

fun decodeElems :: "nat \<Rightarrow> bytes \<Rightarrow> gmap \<Rightarrow> error option \<times> gmap" where
  "decodeElems 0 buf m = (None, m)"
| "decodeElems (Suc n) buf m =
     (case decodeInterface buf of
        Inl e \<Rightarrow> (Some e, m)
      | Inr (k, buf1) \<Rightarrow>
          (case decodeInterface buf1 of
             Inl e \<Rightarrow> (Some e, m)
           | Inr (v, buf2) \<Rightarrow> decodeElems n buf2 (AList.update k v m)))"

definition decodeMap :: "bytes \<Rightarrow> gmap \<Rightarrow> error option \<times> gmap" where
  "decodeMap buf m =
     (case decodeUint buf of
        Inl e \<Rightarrow> (Some e, m)
      | Inr (n, rest) \<Rightarrow> decodeElems (nat (sint n)) rest m)"

subsection \<open>The stream\<close>

text \<open>
  The first message of the stream is a type definition: the id that gob has given to
  \<^verbatim>\<open>map[interface{}]interface{}\<close>, negated, and the \<^verbatim>\<open>wireType\<close> that describes
  it, a struct whose field \<^verbatim>\<open>MapT\<close> (the fourth) holds a \<^verbatim>\<open>CommonType\<close> with the
  id (the type has no name) and the ids of the key and element types, \<^verbatim>\<open>tInterface = 8\<close>.
  Ids of described types start at \<^verbatim>\<open>firstUserId = 64\<close>, and the map type is the
  first that is described. The bytes are \<^verbatim>\<open>0d 7f 04 01 02 ff 80 00 01 10 01 10 00 00\<close>.
  The second message is the value: its length, the type id, the zero field delta of a
  singleton, the map.
\<close>

definition mapTypeId :: "64 word" where
  "mapTypeId = 64"

definition tInterface :: "64 word" where
  "tInterface = 8"

definition mapWireType :: bytes where
  "mapWireType =
     [CHR 0x04, CHR 0x01, CHR 0x02] @ encodeInt mapTypeId @ [CHR 0x00]
     @ [CHR 0x01] @ encodeInt tInterface @ [CHR 0x01] @ encodeInt tInterface
     @ [CHR 0x00, CHR 0x00]"

definition mapTypeDef :: bytes where
  "mapTypeDef = writeMessage (encodeInt (- mapTypeId) @ mapWireType)"

definition Encode :: "gmap \<Rightarrow> error + bytes" where
  "Encode m =
     (case encodeMap m of
        Inl e \<Rightarrow> Inl e
      | Inr body \<Rightarrow> Inr (mapTypeDef @ writeMessage (encodeInt mapTypeId @ encodeUint 0 @ body)))"

text \<open>
  \<^verbatim>\<open>decodeUintReader\<close> reads the length of a message from the stream: no byte at all
  is \<^verbatim>\<open>io.EOF\<close>, a length cut short \<^verbatim>\<open>io.ErrUnexpectedEOF\<close>. \<^verbatim>\<open>recvMessage\<close>
  then reads the whole message, before any of it is decoded: a stream that ends early is
  an error here. The result is the message and the rest of the stream.
\<close>

fun decodeUintReader :: "bytes \<Rightarrow> error + (64 word \<times> bytes)" where
  "decodeUintReader [] = Inl ErrEOF"
| "decodeUintReader (b # r) =
     (if (of_char b :: nat) \<le> 0x7F then Inr (of_nat (of_char b), r)
      else let n = 256 - (of_char b :: nat) in
        if n > 8 then Inl ErrBadUint
        else if length r < n then Inl ErrUnexpectedEOF
        else Inr (of_nat (be_val (take n r)), drop n r))"

definition recvMessage :: "bytes \<Rightarrow> error + (bytes \<times> bytes)" where
  "recvMessage d =
     (case decodeUintReader d of
        Inl e \<Rightarrow> Inl e
      | Inr (nbytes, rest) \<Rightarrow>
          if length rest < unat nbytes then Inl ErrUnexpectedEOF
          else Inr (take (unat nbytes) rest, drop (unat nbytes) rest))"

text \<open>
  \<^verbatim>\<open>recvType\<close> decodes the \<^verbatim>\<open>wireType\<close> of a type definition. A struct is sent as
  its non-zero fields, each preceded by the distance from the field before, and a zero
  at the end. Of the kinds of \<^verbatim>\<open>wireType\<close> only \<^verbatim>\<open>MapT\<close> is read here, with or
  without a name in its \<^verbatim>\<open>CommonType\<close>; the result is the ids of the key and element
  types. Nothing may follow the definition in its message.
\<close>

definition decodeDelta :: "64 word \<Rightarrow> bytes \<Rightarrow> error + bytes" where
  "decodeDelta k buf =
     (case decodeUint buf of
        Inl e \<Rightarrow> Inl e
      | Inr (delta, rest) \<Rightarrow> if delta = k then Inr rest else Inl ErrBadTypeDef)"

definition decodeId :: "bytes \<Rightarrow> error + bytes" where
  "decodeId buf =
     (case decodeInt buf of
        Inl e \<Rightarrow> Inl e
      | Inr (i, rest) \<Rightarrow> decodeDelta 0 rest)"

definition decodeCommonType :: "bytes \<Rightarrow> error + bytes" where
  "decodeCommonType buf =
     (case decodeUint buf of
        Inl e \<Rightarrow> Inl e
      | Inr (delta, buf1) \<Rightarrow>
          if delta = 2 then decodeId buf1
          else if delta = 1 then
            (case decodeUint buf1 of
               Inl e \<Rightarrow> Inl e
             | Inr (n, buf2) \<Rightarrow>
                 if length buf2 < unat n then Inl ErrBadLength
                 else (case decodeDelta 1 (drop (unat n) buf2) of
                   Inl e \<Rightarrow> Inl e
                 | Inr buf3 \<Rightarrow> decodeId buf3))
          else Inl ErrBadTypeDef)"

definition decodeMapType :: "bytes \<Rightarrow> error + (64 word \<times> 64 word \<times> bytes)" where
  "decodeMapType buf =
     (case decodeDelta 1 buf of
        Inl e \<Rightarrow> Inl e
      | Inr buf1 \<Rightarrow>
          (case decodeCommonType buf1 of
             Inl e \<Rightarrow> Inl e
           | Inr buf2 \<Rightarrow>
               (case decodeDelta 1 buf2 of
                  Inl e \<Rightarrow> Inl e
                | Inr buf3 \<Rightarrow>
                    (case decodeInt buf3 of
                       Inl e \<Rightarrow> Inl e
                     | Inr (key, buf4) \<Rightarrow>
                         (case decodeDelta 1 buf4 of
                            Inl e \<Rightarrow> Inl e
                          | Inr buf5 \<Rightarrow>
                              (case decodeInt buf5 of
                                 Inl e \<Rightarrow> Inl e
                               | Inr (elem, buf6) \<Rightarrow>
                                   (case decodeDelta 0 buf6 of
                                      Inl e \<Rightarrow> Inl e
                                    | Inr buf7 \<Rightarrow> Inr (key, elem, buf7))))))))"

definition recvType :: "bytes \<Rightarrow> error + (64 word \<times> 64 word)" where
  "recvType buf =
     (case decodeDelta 4 buf of
        Inl e \<Rightarrow> Inl e
      | Inr buf1 \<Rightarrow>
          (case decodeMapType buf1 of
             Inl e \<Rightarrow> Inl e
           | Inr (key, elem, buf2) \<Rightarrow>
               (case decodeDelta 0 buf2 of
                  Inl e \<Rightarrow> Inl e
                | Inr buf3 \<Rightarrow> if buf3 \<noteq> [] then Inl ErrExtraData else Inr (key, elem))))"

text \<open>
  \<^verbatim>\<open>decodeTypeSequence\<close> reads messages up to the one that holds the value. A message
  starts with a type id, a \<^verbatim>\<open>typeId(dec.nextInt())\<close> of 32 bits: a negative id
  announces the definition of the type with the id negated, which must not be below
  \<^verbatim>\<open>firstUserId\<close>; an id that is not negative is that of the value. An end of the
  stream is \<^verbatim>\<open>io.EOF\<close> before the first message and \<^verbatim>\<open>io.ErrUnexpectedEOF\<close>
  after it. The result is the id of the value, the type that was defined, if any, with
  the ids of its key and element types, and what is left of the value's message.
\<close>

definition typeId_of :: "64 word \<Rightarrow> int" where
  "typeId_of i = sint (ucast i :: 32 word)"

definition decodeTypeSequence ::
  "bytes \<Rightarrow> error + (int \<times> (int \<times> 64 word \<times> 64 word) option \<times> bytes)" where
  "decodeTypeSequence d =
     (case recvMessage d of
        Inl e \<Rightarrow> Inl e
      | Inr (msg, rest) \<Rightarrow>
          (case decodeInt msg of
             Inl e \<Rightarrow> Inl e
           | Inr (i, buf) \<Rightarrow>
               if 0 \<le> typeId_of i then Inr (typeId_of i, None, buf)
               else if - typeId_of i < 64 then Inl ErrBadTypeDef
               else (case recvType buf of
                 Inl e \<Rightarrow> Inl e
               | Inr (key, elem) \<Rightarrow>
                   (case recvMessage rest of
                      Inl e \<Rightarrow> Inl (if e = ErrEOF then ErrUnexpectedEOF else e)
                    | Inr (msg1, rest1) \<Rightarrow>
                        (case decodeInt msg1 of
                           Inl e \<Rightarrow> Inl e
                         | Inr (j, buf1) \<Rightarrow>
                             if typeId_of j < 0 then Inl ErrBadTypeDef
                             else Inr (typeId_of j, Some (- typeId_of i, key, elem), buf1))))))"

text \<open>
  \<^verbatim>\<open>Decode\<close>, for a destination of type \<^verbatim>\<open>map[interface{}]interface{}\<close>: the type
  of the value has to be one the stream has defined as a map from interface to
  interface; then comes the zero field delta of a singleton, and the map.
\<close>

definition Decode :: "bytes \<Rightarrow> gmap \<Rightarrow> error option \<times> gmap" where
  "Decode d m =
     (case decodeTypeSequence d of
        Inl e \<Rightarrow> (Some e, m)
      | Inr (wireId, wire, buf) \<Rightarrow>
          if wire \<noteq> Some (wireId, tInterface, tInterface) then (Some ErrTypeMismatch, m)
          else (case decodeUint buf of
            Inl e \<Rightarrow> (Some e, m)
          | Inr (delta, buf1) \<Rightarrow>
              if delta \<noteq> 0 then (Some ErrCorrupted, m) else decodeMap buf1 m))"

section \<open>Store (store.go)\<close>

text \<open>
  The struct has a \<^verbatim>\<open>sync.RWMutex\<close> and the map. The mutex is modelled by the trace of
  what the methods of \<^verbatim>\<open>Store\<close> do with it, interleaved with their accesses to the
  map, so that which accesses happen under which lock can be read off. (The bridge reads
  and writes \<^verbatim>\<open>store.values\<close> directly as well; those accesses are outside the
  methods and leave no trace.)
\<close>

datatype lock_event = Lock | Unlock | RLock | RUnlock | ReadValues | WriteValues

record Store =
  lock_trace :: "lock_event list"
  values_map :: gmap

definition NewStore :: Store where
  "NewStore = \<lparr>lock_trace = [], values_map = []\<rparr>"

definition ev :: "lock_event \<Rightarrow> Store \<Rightarrow> Store" where
  "ev e rs = rs\<lparr>lock_trace := lock_trace rs @ [e]\<rparr>"

text \<open>\<^verbatim>\<open>m[key]\<close> in its one-value form: the zero value, a nil interface, when absent.\<close>

definition index :: "gmap \<Rightarrow> gval \<Rightarrow> gval" where
  "index m key = (case map_of m key of Some v \<Rightarrow> v | None \<Rightarrow> GNil)"

definition Store_Set :: "gval \<Rightarrow> gval \<Rightarrow> Store \<Rightarrow> error option \<times> Store" where
  "Store_Set key val rs =
     (let rs1 = ev Lock rs;
          rs2 = ev WriteValues (rs1\<lparr>values_map := AList.update key val (values_map rs1)\<rparr>)
      in (None, ev Unlock rs2))"

definition Store_Get :: "gval \<Rightarrow> Store \<Rightarrow> gval \<times> Store" where
  "Store_Get key rs =
     (let rs1 = ev RLock rs;
          rs2 = ev ReadValues rs1
      in case map_of (values_map rs2) key of
           Some v \<Rightarrow> (v, ev RUnlock rs2)
         | None \<Rightarrow> (GNil, ev RUnlock rs2))"

definition Store_Delete :: "gval \<Rightarrow> Store \<Rightarrow> error option \<times> Store" where
  "Store_Delete key rs =
     (let rs1 = ev Lock rs;
          rs2 = ev WriteValues (rs1\<lparr>values_map := AList.delete key (values_map rs1)\<rparr>)
      in (None, ev Unlock rs2))"

definition Store_Flush :: "Store \<Rightarrow> error option \<times> Store" where
  "Store_Flush rs =
     (let rs1 = ev Lock rs;
          rs2 = ev WriteValues (rs1\<lparr>values_map := []\<rparr>)
      in (None, ev Unlock rs2))"

definition Store_Serialize :: "Store \<Rightarrow> (error + bytes) \<times> Store" where
  "Store_Serialize rs = (Encode (values_map rs), ev ReadValues rs)"

definition Store_Deserialize :: "bytes \<Rightarrow> Store \<Rightarrow> error option \<times> Store" where
  "Store_Deserialize d rs =
     (case Decode d (values_map rs) of
        (err, m) \<Rightarrow> (err, ev WriteValues (rs\<lparr>values_map := m\<rparr>)))"

section \<open>The redis service\<close>

text \<open>
  The package \<^verbatim>\<open>service\<close> wraps the connection to redis; the bridge only calls it,
  and what its functions do is taken from the interface the specification gives for it.
  Its state is one entry per identifier, a payload and an optional time to live in
  seconds; whether the connection works; and the calls that asked for a change, in order.
\<close>

record entry =
  payload :: bytes
  ttl :: "int option"

datatype call = CallSet string bytes int | CallUpdateTTL string int | CallDelete string

record Service =
  entries :: "string \<Rightarrow> entry option"
  online :: bool
  calls :: "call list"

text \<open>
  Modelled from the spec: \<^verbatim>\<open>Service.Get\<close>, ``\<^verbatim>\<open>Get(id string) (bytes, error)\<close> --
  fails/returns not-found when absent''.
\<close>

definition Service_Get :: "string \<Rightarrow> Service \<Rightarrow> error + bytes" where
  "Service_Get sid s =
     (if \<not> online s then Inl ErrConnection
      else case entries s sid of
        None \<Rightarrow> Inl (ErrKeyNotFound sid)
      | Some e \<Rightarrow> Inr (payload e))"

text \<open>
  Modelled from the spec: \<^verbatim>\<open>Service.Set\<close>,
  ``\<^verbatim>\<open>Set(id string, payload []byte, ttlSeconds int64) error\<close>'', with ``a TTL value of 0
  must mean leave expiration untouched''.
\<close>

definition Service_Set :: "string \<Rightarrow> bytes \<Rightarrow> int \<Rightarrow> Service \<Rightarrow> error option \<times> Service" where
  "Service_Set sid p secs s =
     (let s1 = s\<lparr>calls := calls s @ [CallSet sid p secs]\<rparr> in
      if \<not> online s then (Some ErrConnection, s1)
      else let t = (if 0 < secs then Some secs
                    else case entries s sid of None \<Rightarrow> None | Some e \<Rightarrow> ttl e)
           in (None, s1\<lparr>entries := (entries s)(sid \<mapsto> \<lparr>payload = p, ttl = t\<rparr>)\<rparr>))"

text \<open>
  Modelled from the spec: \<^verbatim>\<open>Service.TTL\<close>,
  ``\<^verbatim>\<open>TTL(id string) (seconds int64, hasExpiration bool, found bool)\<close>''. The seconds
  reported without an expiration or without an entry are redis's \<open>-1\<close> and \<open>-2\<close>.
\<close>

definition Service_TTL :: "string \<Rightarrow> Service \<Rightarrow> int \<times> bool \<times> bool" where
  "Service_TTL sid s =
     (if \<not> online s then (-2, False, False)
      else case entries s sid of
        None \<Rightarrow> (-2, False, False)
      | Some e \<Rightarrow> (case ttl e of None \<Rightarrow> (-1, False, True) | Some t \<Rightarrow> (t, True, True)))"

text \<open>
  Modelled from the spec: \<^verbatim>\<open>Service.UpdateTTL\<close>,
  ``\<^verbatim>\<open>UpdateTTL(id string, newTtlSeconds int64) error\<close>'', which refreshes ``the TTL
  on the existing entry without touching its payload''.
\<close>

definition Service_UpdateTTL :: "string \<Rightarrow> int \<Rightarrow> Service \<Rightarrow> error option \<times> Service" where
  "Service_UpdateTTL sid secs s =
     (let s1 = s\<lparr>calls := calls s @ [CallUpdateTTL sid secs]\<rparr> in
      if \<not> online s then (Some ErrConnection, s1)
      else case entries s sid of
        None \<Rightarrow> (Some (ErrKeyNotFound sid), s1)
      | Some e \<Rightarrow> (None, s1\<lparr>entries := (entries s)(sid \<mapsto> e\<lparr>ttl := Some secs\<rparr>)\<rparr>))"

text \<open>Modelled from the spec: \<^verbatim>\<open>Service.Delete\<close>, ``\<^verbatim>\<open>Delete(id string) error\<close>''.\<close>

definition Service_Delete :: "string \<Rightarrow> Service \<Rightarrow> error option \<times> Service" where
  "Service_Delete sid s =
     (let s1 = s\<lparr>calls := calls s @ [CallDelete sid]\<rparr> in
      if \<not> online s then (Some ErrConnection, s1)
      else (None, s1\<lparr>entries := (entries s)(sid := None)\<rparr>))"

text \<open>
  Modelled from the spec: \<^verbatim>\<open>Service.CloseConnection\<close>,
  ``\<^verbatim>\<open>CloseConnection() error\<close>'', an ``idempotent teardown of the external connection''.
\<close>

definition Service_CloseConnection :: "Service \<Rightarrow> error option \<times> Service" where
  "Service_CloseConnection s = (None, s\<lparr>online := False\<rparr>)"

text \<open>Modelled from the spec: \<^verbatim>\<open>Service.Exist\<close>, ``\<^verbatim>\<open>Exist(id string) bool\<close>''.\<close>

definition Service_Exist :: "string \<Rightarrow> Service \<Rightarrow> bool" where
  "Service_Exist sid s = (online s \<and> entries s sid \<noteq> None)"

section \<open>Database, the bridge between sessions and redis\<close>

text \<open>
  Times and durations are whole numbers of nanoseconds, as \<^verbatim>\<open>time.Duration\<close> is; the
  zero \<^verbatim>\<open>time.Time\<close> is 0. \<^verbatim>\<open>sessions.LifeTime\<close> embeds a \<^verbatim>\<open>time.Time\<close>, and
  \<^verbatim>\<open>LifeTime{}\<close> holds the zero time. \<^verbatim>\<open>DurationUntilExpiration\<close> is
  \<^verbatim>\<open>time.Until\<close>, which stops at the least and the greatest \<^verbatim>\<open>Duration\<close>. The clock
  is an argument \<open>now\<close> of the operations that read it.
\<close>

record LifeTime =
  Time :: int

definition LifeTime_empty :: LifeTime where
  "LifeTime_empty = \<lparr>Time = 0\<rparr>"

definition DurationUntilExpiration :: "LifeTime \<Rightarrow> int \<Rightarrow> int" where
  "DurationUntilExpiration lt now =
     (let d = Time lt - now in
      if d < - 9223372036854775808 then - 9223372036854775808
      else if 9223372036854775807 < d then 9223372036854775807
      else d)"

text \<open>
  \<^verbatim>\<open>int64(d.Seconds())\<close>. \<^verbatim>\<open>Duration.Seconds\<close> is
  \<^verbatim>\<open>float64(sec) + float64(nsec)/1e9\<close> with \<^verbatim>\<open>sec := d / Second\<close> and
  \<^verbatim>\<open>nsec := d % Second\<close>: a division and an addition of \<^verbatim>\<open>float64\<close>, each
  giving the \<^verbatim>\<open>float64\<close> nearest to the exact result, the one with the even
  mantissa when two are equally near. The conversion to \<^verbatim>\<open>int64\<close> then drops the
  fraction.

  A \<^verbatim>\<open>float64\<close> that is not negative is given by a mantissa \<open>m\<close> below $2^{53}$
  and a scale \<open>k\<close>, and stands for $m / 2^k$. \<open>float64 n d\<close> is the one nearest
  to the quotient $n / d$, for a quotient below $2^{53}$: \<open>float64_scale\<close> is the
  scale at which the mantissa has 53 bits, found from the position of the leading bit of
  the quotient, and \<open>round_half_even\<close> rounds the mantissa. Both \<^verbatim>\<open>sec\<close> and
  \<^verbatim>\<open>nsec\<close> are below $2^{53}$ and convert exactly. Go's \<^verbatim>\<open>/\<close> and
  \<^verbatim>\<open>%\<close> round towards zero and the rounding of \<^verbatim>\<open>float64\<close> is symmetric,
  so the result for a negative duration is that for its absolute value, negated.
\<close>

function floor_log2 :: "nat \<Rightarrow> nat" where
  "floor_log2 n = (if n < 2 then 0 else Suc (floor_log2 (n div 2)))"
  by pat_completeness auto
termination
  by (relation "measure id") auto

declare floor_log2.simps [simp del]

definition round_half_even :: "nat \<Rightarrow> nat \<Rightarrow> nat" where
  "round_half_even n d =
     (let q = n div d; r = n mod d in
      if 2 * r < d then q else if d < 2 * r then q + 1 else if even q then q else q + 1)"

definition float64_scale :: "nat \<Rightarrow> nat \<Rightarrow> nat" where
  "float64_scale n d =
     (if d \<le> n then 52 - floor_log2 (n div d)
      else 53 + floor_log2 ((d + n - 1) div n - 1))"

definition float64 :: "nat \<Rightarrow> nat \<Rightarrow> nat \<times> nat" where
  "float64 n d =
     (if n = 0 then (0, 0)
      else (round_half_even (n * 2 ^ float64_scale n d) d, float64_scale n d))"

definition Seconds :: "int \<Rightarrow> int" where
  "Seconds d =
     (let sec = nat \<bar>d\<bar> div 1000000000;
          nsec = nat \<bar>d\<bar> mod 1000000000;
          (m, k) = float64 nsec 1000000000;
          (m', k') = float64 (sec * 2 ^ k + m) (2 ^ k)
      in sgn d * int (m' div 2 ^ k'))"

text \<open>\<^verbatim>\<open>time.Duration(seconds) * time.Second\<close>, a product of two \<^verbatim>\<open>int64\<close>.\<close>

definition seconds_Duration :: "int \<Rightarrow> int" where
  "seconds_Duration seconds = sint (word_of_int seconds * 1000000000 :: 64 word)"

text \<open>
  What the bridge hands to \<^verbatim>\<open>golog\<close>, the logger of the process, is kept with the
  database, so that the whole effect of an operation is one value.
\<close>

datatype log_line = LogError error | LogDebug string string gval gmap

record Database =
  redis :: Service
  golog :: "log_line list"

definition Database_Acquire :: "string \<Rightarrow> int \<Rightarrow> int \<Rightarrow> Database \<Rightarrow> LifeTime \<times> Database" where
  "Database_Acquire sid expires now db =
     (case Service_TTL sid (redis db) of
        (seconds, hasExpiration, found) \<Rightarrow>
          if \<not> found then
            (case Service_Set sid [] (Seconds expires) (redis db) of
               (Some err, s) \<Rightarrow>
                 (LifeTime_empty, db\<lparr>redis := s, golog := golog db @ [LogError err]\<rparr>)
             | (None, s) \<Rightarrow> (LifeTime_empty, db\<lparr>redis := s\<rparr>))
          else if \<not> hasExpiration then (LifeTime_empty, db)
          else (\<lparr>Time = now + seconds_Duration seconds\<rparr>, db))"

definition Database_OnUpdateExpiration ::
  "string \<Rightarrow> int \<Rightarrow> Database \<Rightarrow> error option \<times> Database" where
  "Database_OnUpdateExpiration sid newExpires db =
     (case Service_UpdateTTL sid (Seconds newExpires) (redis db) of
        (err, s) \<Rightarrow> (err, db\<lparr>redis := s\<rparr>))"

definition Database_get :: "string \<Rightarrow> Store \<Rightarrow> Database \<Rightarrow> Store \<times> Database" where
  "Database_get key store db =
     (case Service_Get key (redis db) of
        Inl err \<Rightarrow> (store, db)
      | Inr data \<Rightarrow>
          (case Store_Deserialize data store of
             (Some err, store1) \<Rightarrow> (store1, db\<lparr>golog := golog db @ [LogError err]\<rparr>)
           | (None, store1) \<Rightarrow> (store1, db)))"

definition Database_set :: "string \<Rightarrow> int \<Rightarrow> Store \<Rightarrow> Database \<Rightarrow> Database" where
  "Database_set sid secondsLifetime store db =
     (case Store_Serialize store of
        (Inl err, store1) \<Rightarrow> db\<lparr>golog := golog db @ [LogError err]\<rparr>
      | (Inr valueBytes, store1) \<Rightarrow>
          (case Service_Set sid valueBytes secondsLifetime (redis db) of
             (Some err, s) \<Rightarrow> db\<lparr>redis := s, golog := golog db @ [LogError err]\<rparr>
           | (None, s) \<Rightarrow> db\<lparr>redis := s\<rparr>))"

definition Database_Set ::
  "string \<Rightarrow> LifeTime \<Rightarrow> string \<Rightarrow> gval \<Rightarrow> bool \<Rightarrow> int \<Rightarrow> Database \<Rightarrow> Database" where
  "Database_Set sid lifetime key val immutable now db =
     (case Database_get sid NewStore db of
        (store, db1) \<Rightarrow>
          let store1 = store\<lparr>values_map := AList.update (GString key) val (values_map store)\<rparr>;
              db2 = db1\<lparr>golog := golog db1 @ [LogDebug sid key val (values_map store1)]\<rparr>
          in Database_set sid (Seconds (DurationUntilExpiration lifetime now)) store1 db2)"

definition Database_Get :: "string \<Rightarrow> string \<Rightarrow> Database \<Rightarrow> gval \<times> Database" where
  "Database_Get sid key db =
     (case Database_get sid NewStore db of
        (store, db1) \<Rightarrow> (index (values_map store) (GString key), db1))"





definition Database_Clear :: "string \<Rightarrow> Database \<Rightarrow> Database" where
  "Database_Clear sid db =
     (case Database_get sid NewStore db of
        (store, db1) \<Rightarrow>
          if 0 < length (values_map store)
          then Database_set sid 0 (snd (Store_Flush store)) db1
          else db1)"

definition Database_Release :: "string \<Rightarrow> Database \<Rightarrow> Database" where
  "Database_Release sid db =
     (let db1 = Database_Clear sid db
      in db1\<lparr>redis := snd (Service_Delete sid (redis db1))\<rparr>)"

definition closeDB :: "Database \<Rightarrow> error option \<times> Database" where
  "closeDB db =
     (case Service_CloseConnection (redis db) of (err, s) \<Rightarrow> (err, db\<lparr>redis := s\<rparr>))"

definition Database_Close :: "Database \<Rightarrow> error option \<times> Database" where
  "Database_Close db = closeDB db"

section \<open>Predicates and sample states used in the statements\<close>

text \<open>
  A value gob can encode and give back: its type is registered, and the length of a
  string fits the 64 bits it is sent in (the length of every Go string does).
\<close>

fun encodable :: "gval \<Rightarrow> bool" where
  "encodable (GOther n) = False"
| "encodable (GString s) = (length s < 18446744073709551616)"
| "encodable v = True"

text \<open>
  Sample maps with their gob streams, for the concrete instances below: the value message
  of \<^verbatim>\<open>{"k": "v", -3: true, nil: 300}\<close>, and that of \<^verbatim>\<open>{"b": 2}\<close>.
\<close>

definition sample_map :: gmap where
  "sample_map = [(GString ''k'', GString ''v''), (GInt (- 3), GBool True), (GNil, GInt 300)]"

definition sample_bytes :: bytes where
  "sample_bytes = mapTypeDef @ [CHR 0x38, CHR 0xFF, CHR 0x80, CHR 0x00, CHR 0x03]
     @ [CHR 0x06] @ ''string'' @ [CHR 0x0C, CHR 0x03, CHR 0x00, CHR 0x01] @ ''k''
     @ [CHR 0x06] @ ''string'' @ [CHR 0x0C, CHR 0x03, CHR 0x00, CHR 0x01] @ ''v''
     @ [CHR 0x03] @ ''int'' @ [CHR 0x04, CHR 0x02, CHR 0x00, CHR 0x05]
     @ [CHR 0x04] @ ''bool'' @ [CHR 0x02, CHR 0x02, CHR 0x00, CHR 0x01]
     @ [CHR 0x00]
     @ [CHR 0x03] @ ''int'' @ [CHR 0x04, CHR 0x04, CHR 0x00, CHR 0xFE, CHR 0x02, CHR 0x58]"


text \<open>
  Sample states of the bridge: a service with no entry; one holding the stream of
  \<^verbatim>\<open>{"k": "v"}\<close> under \<^verbatim>\<open>"sid"\<close>; two holding a stream whose second key has a
  type name the decoder has not registered; and one holding the empty payload that
  \<^verbatim>\<open>Acquire\<close> writes.
\<close>

definition empty_db :: Database where
  "empty_db = \<lparr>redis = \<lparr>entries = Map.empty, online = True, calls = []\<rparr>, golog = []\<rparr>"

definition kv_bytes :: bytes where
  "kv_bytes = mapTypeDef @ [CHR 0x1C, CHR 0xFF, CHR 0x80, CHR 0x00, CHR 0x01]
     @ [CHR 0x06] @ ''string'' @ [CHR 0x0C, CHR 0x03, CHR 0x00, CHR 0x01] @ ''k''
     @ [CHR 0x06] @ ''string'' @ [CHR 0x0C, CHR 0x03, CHR 0x00, CHR 0x01] @ ''v''"







definition kv_db :: Database where
  "kv_db = \<lparr>redis = \<lparr>entries = [''sid'' \<mapsto> \<lparr>payload = kv_bytes, ttl = Some 60\<rparr>],
                        online = True, calls = []\<rparr>, golog = []\<rparr>"

section \<open>Decoding what was encoded\<close>

subsection \<open>Integers\<close>

lemma be_val_append: "be_val (xs @ [b]) = be_val xs * 256 + of_char b"
  by (simp add: be_val_def)

lemma be_val_be_bytes: "be_val (be_bytes n) = n"
proof (induction n rule: be_bytes.induct)
  case (1 n)
  show ?case
  proof (cases "n = 0")
    case True
    then show ?thesis by (simp add: be_bytes.simps be_val_def)
  next
    case False
    then have "be_bytes n = be_bytes (n div 256) @ [char_of n]"
      by (subst be_bytes.simps) simp
    with 1 False show ?thesis by (simp add: be_val_append)
  qed
qed

lemma length_be_bytes: "n < 256 ^ k \<Longrightarrow> length (be_bytes n) \<le> k"
proof (induction k arbitrary: n)
  case 0
  then show ?case by (simp add: be_bytes.simps)
next
  case (Suc k)
  show ?case
  proof (cases "n = 0")
    case True
    then show ?thesis by (simp add: be_bytes.simps)
  next
    case False
    from Suc.prems have "n div 256 < 256 ^ k"
      by (simp add: less_mult_imp_div_less mult.commute)
    from Suc.IH [OF this] False show ?thesis
      by (subst be_bytes.simps) simp
  qed
qed

lemma be_bytes_nonempty: "0 < n \<Longrightarrow> be_bytes n \<noteq> []"
  by (subst be_bytes.simps) simp

lemma decodeUint_encodeUint: "decodeUint (encodeUint x @ rest) = Inr (x, rest)"
proof (cases "x \<le> 0x7F")
  case True
  then have "unat x \<le> 0x7F" by (simp add: word_le_nat_alt)
  then have "unat x mod 256 = unat x" by simp
  with True \<open>unat x \<le> 0x7F\<close> show ?thesis by (simp add: encodeUint_def)
next
  case False
  define bs where "bs = be_bytes (unat x)"
  have "unat x < 256 ^ 8" using unsigned_less [of x, where 'a = nat] by simp
  then have l8: "length bs \<le> 8" unfolding bs_def by (rule length_be_bytes)
  from False have "0 < unat x" by (simp add: word_le_nat_alt not_le)
  then have "bs \<noteq> []" unfolding bs_def by (rule be_bytes_nonempty)
  then have l1: "0 < length bs" by simp
  from l1 l8 have m: "(256 - length bs) mod 256 = 256 - length bs" by simp
  have v: "be_val bs = unat x" unfolding bs_def by (rule be_val_be_bytes)
  from False l1 l8 m v show ?thesis
    by (simp add: encodeUint_def bs_def [symmetric] Let_def)
qed

text \<open>The sign bit, and the shifts of \<^verbatim>\<open>encodeInt\<close>.\<close>

lemma sless0_bit: "(i :: 64 word) <s 0 \<longleftrightarrow> bit i 63"
  using bit_last_iff [of i] by (simp add: word_sless_alt)

lemma drop_push1:
  assumes "\<not> bit (v :: 64 word) 63"
  shows "drop_bit 1 (push_bit 1 v) = v"
proof (rule bit_eqI)
  fix n assume "possible_bit TYPE(64 word) n"
  then have n64: "n < 64" by (simp add: possible_bit_word)
  have "bit (drop_bit 1 (push_bit 1 v)) n = bit (push_bit 1 v) (1 + n)"
    by (simp only: bit_drop_bit_eq comp_def)
  also have "\<dots> = (1 + n < 64 \<and> bit v n)"
    by (simp only: bit_push_bit_iff possible_bit_word) auto
  also have "\<dots> = bit v n"
    using assms n64 by (cases "n = 63") auto
  finally show "bit (drop_bit 1 (push_bit 1 v)) n = bit v n" .
qed

lemma push1_even: "push_bit 1 (v :: 64 word) AND 1 = 0"
  by (metis and_one_eq bit_1_0 bit_mod_2_iff even_push_bit_iff not_mod_2_eq_0_eq_1)

lemma push1_or1_odd: "(push_bit 1 (v :: 64 word) OR 1) AND 1 \<noteq> 0"
  by simp

lemma drop_push1_or1: "drop_bit 1 (push_bit 1 (v :: 64 word) OR 1) = drop_bit 1 (push_bit 1 v)"
  by simp

lemma decodeInt_encodeInt: "decodeInt (encodeInt i @ rest) = Inr (i, rest)"
proof (cases "i <s 0")
  case True
  then have "\<not> bit (NOT i) 63" by (simp add: sless0_bit bit_not_iff)
  then have a: "drop_bit 1 (push_bit 1 (NOT i)) = NOT i" by (rule drop_push1)
  have "NOT (drop_bit 1 (push_bit 1 (NOT i) OR 1)) = NOT (drop_bit 1 (push_bit 1 (NOT i)))"
    by (simp only: drop_push1_or1)
  also have "\<dots> = i" by (simp only: a) simp
  finally have "NOT (drop_bit 1 (push_bit 1 (NOT i) OR 1)) = i" .
  with True push1_or1_odd [of "NOT i"] show ?thesis
    by (simp only: decodeInt_def encodeInt_def decodeUint_encodeUint if_True) simp
next
  case False
  then have "\<not> bit i 63" by (simp add: sless0_bit)
  then have "drop_bit 1 (push_bit 1 i) = i" by (rule drop_push1)
  with False push1_even [of i] show ?thesis
    by (simp only: decodeInt_def encodeInt_def decodeUint_encodeUint if_False) simp
qed

subsection \<open>Interface values\<close>

lemma nameToConcreteType_typeName: "nameToConcreteType (typeName t) = Some t"
  by (cases t) (simp_all add: nameToConcreteType_def)

lemma unat_length_typeName: "unat (word_of_nat (length (typeName t)) :: 64 word) = length (typeName t)"
  by (cases t) simp_all

lemma typeName_bounds: "typeName t \<noteq> [] \<and> length (typeName t) \<le> 1024"
  by (cases t) simp_all

lemma decodeInterface_interfaceBytes:
  assumes "decValue t (val @ rest) = Inr (v, rest)"
  shows "decodeInterface (interfaceBytes t val @ rest) = Inr (v, rest)"
  using assms typeName_bounds [of t]
  by (simp add: interfaceBytes_def encString_def writeMessage_def decodeInterface_def
      decodeUint_encodeUint decodeInt_encodeInt decodeValue_def nameToConcreteType_typeName
      unat_length_typeName Let_def)

lemma unat_of_nat64: "n < 18446744073709551616 \<Longrightarrow> unat (word_of_nat n :: 64 word) = n"
  by (simp add: unat_of_nat)

lemma decodeInterface_encodeInterface:
  assumes "encodable v" and "encodeInterface v = Inr b"
  shows "decodeInterface (b @ rest) = Inr (v, rest)"
proof (cases v)
  case GNil
  with assms show ?thesis
    by (auto simp add: decodeInterface_def decodeUint_encodeUint)
next
  case (GBool x)
  have "decValue TBool (encodeUint (if x then 1 else 0) @ rest) = Inr (GBool x, rest)"
    by (simp add: decodeUint_encodeUint)
  with GBool assms show ?thesis
    by (auto simp add: decodeInterface_interfaceBytes)
next
  case (GInt i)
  have "decValue TInt (encodeInt i @ rest) = Inr (GInt i, rest)"
    by (simp add: decodeInt_encodeInt)
  with GInt assms show ?thesis
    by (auto simp add: decodeInterface_interfaceBytes)
next
  case (GString s)
  with assms have "unat (word_of_nat (length s) :: 64 word) = length s"
    by (simp add: unat_of_nat64)
  then have "decValue TString (encString s @ rest) = Inr (GString s, rest)"
    by (simp add: encString_def decodeUint_encodeUint)
  with GString assms show ?thesis
    by (auto simp add: decodeInterface_interfaceBytes)
next
  case (GOther n)
  with assms show ?thesis by simp
qed


subsection \<open>Maps and streams\<close>

lemma encodeUint_nonempty: "encodeUint x \<noteq> []"
  by (simp add: encodeUint_def Let_def)

lemma interfaceBytes_length: "length val < length (interfaceBytes t val)"
  using encodeUint_nonempty [of 0]
  by (simp add: interfaceBytes_def writeMessage_def)

lemma encodeInterface_encodable:
  assumes "encodeInterface v = Inr e" and "length e < 18446744073709551616"
  shows "encodable v"
proof (cases v)
  case (GString s)
  have "length s \<le> length (encString s)" by (simp add: encString_def)
  also have "\<dots> < length (interfaceBytes TString (encString s))" by (rule interfaceBytes_length)
  finally show ?thesis using assms GString by auto
next
  case (GOther n)
  with assms show ?thesis by simp
qed simp_all

lemma interfaceBytes_nonempty: "interfaceBytes t val \<noteq> []"
  using interfaceBytes_length [of val t] by auto

lemma encodeInterface_nonempty: "encodeInterface v = Inr e \<Longrightarrow> 0 < length e"
  by (cases v) (auto simp add: encodeUint_nonempty interfaceBytes_nonempty)

lemma encodeElems_bounds:
  "encodeElems m = Inr r \<Longrightarrow> 2 * length m \<le> length r \<and>
     (length r < 18446744073709551616 \<longrightarrow> list_all (\<lambda>(k, v). encodable k \<and> encodable v) m)"
proof (induction m arbitrary: r)
  case Nil
  then show ?case by simp
next
  case (Cons kv m)
  obtain k v where kv: "kv = (k, v)" by (cases kv)
  from Cons.prems kv obtain bk bv r' where
    bk: "encodeInterface k = Inr bk" and bv: "encodeInterface v = Inr bv" and
    r': "encodeElems m = Inr r'" and r: "r = bk @ bv @ r'"
    by (auto split: sum.splits)
  from Cons.IH [OF r'] have ih: "2 * length m \<le> length r'"
    "length r' < 18446744073709551616 \<Longrightarrow> list_all (\<lambda>(k, v). encodable k \<and> encodable v) m"
    by simp_all
  from encodeInterface_nonempty [OF bk] encodeInterface_nonempty [OF bv]
  have "2 \<le> length bk + length bv" by arith
  with ih(1) r have "2 * length (kv # m) \<le> length r" by simp
  moreover have "list_all (\<lambda>(k, v). encodable k \<and> encodable v) (kv # m)"
    if "length r < 18446744073709551616"
  proof -
    from that r have "length bk < 18446744073709551616" "length bv < 18446744073709551616"
      "length r' < 18446744073709551616" by simp_all
    with bk bv ih(2) kv show ?thesis by (simp add: encodeInterface_encodable)
  qed
  ultimately show ?case by simp
qed

lemma decodeElems_encodeElems:
  "list_all (\<lambda>(k, v). encodable k \<and> encodable v) m \<Longrightarrow> encodeElems m = Inr r \<Longrightarrow>
   decodeElems (length m) (r @ rest) s = (None, fold (\<lambda>kv. AList.update (fst kv) (snd kv)) m s)"
proof (induction m arbitrary: r s)
  case Nil
  then show ?case by simp
next
  case (Cons kv m)
  obtain k v where kv: "kv = (k, v)" by (cases kv)
  from Cons.prems kv obtain bk bv r' where
    bk: "encodeInterface k = Inr bk" and bv: "encodeInterface v = Inr bv" and
    r': "encodeElems m = Inr r'" and r: "r = bk @ bv @ r'"
    by (auto split: sum.splits)
  from Cons.prems kv have ek: "encodable k" and ev: "encodable v"
    and em: "list_all (\<lambda>(k, v). encodable k \<and> encodable v) m" by simp_all
  have 1: "decodeInterface (bk @ bv @ r' @ rest) = Inr (k, bv @ r' @ rest)"
    by (rule decodeInterface_encodeInterface [OF ek bk])
  have 2: "decodeInterface (bv @ r' @ rest) = Inr (v, r' @ rest)"
    by (rule decodeInterface_encodeInterface [OF ev bv])
  from Cons.IH [OF em r', of "AList.update k v s"] 1 2 show ?case
    by (simp add: r kv)
qed

lemma map_of_fold_update:
  "distinct (map fst m) \<Longrightarrow>
   map_of (fold (\<lambda>kv. AList.update (fst kv) (snd kv)) m s) = map_of s ++ map_of m"
proof (induction m arbitrary: s)
  case Nil
  then show ?case by simp
next
  case (Cons kv m)
  then have nk: "fst kv \<notin> dom (map_of m)" by (simp add: dom_map_of_conv_image_fst)
  from Cons have "map_of (fold (\<lambda>kv. AList.update (fst kv) (snd kv)) (kv # m) s)
      = map_of (AList.update (fst kv) (snd kv) s) ++ map_of m" by simp
  also have "\<dots> = ((map_of s)(fst kv \<mapsto> snd kv)) ++ map_of m" by (simp add: update_conv')
  also have "\<dots> = map_of s ++ map_of (kv # m)"
    using nk by (cases kv) (auto simp add: map_add_def fun_eq_iff split: option.splits)
  finally show ?case .
qed

text \<open>The messages of the stream, and the definition of the map type.\<close>

lemma decodeUintReader_decodeUint: "decodeUint buf = Inr x \<Longrightarrow> decodeUintReader buf = Inr x"
  by (cases buf) (auto simp add: Let_def split: if_splits)

lemma recvMessage_writeMessage:
  assumes "length msg < 18446744073709551616"
  shows "recvMessage (writeMessage msg @ rest) = Inr (msg, rest)"
proof -
  have "decodeUintReader (encodeUint (of_nat (length msg)) @ msg @ rest) =
      Inr (of_nat (length msg), msg @ rest)"
    by (rule decodeUintReader_decodeUint) (rule decodeUint_encodeUint)
  with unat_of_nat64 [OF assms] show ?thesis
    by (simp add: recvMessage_def writeMessage_def)
qed

lemma mapTypeDef_bytes:
  "mapTypeDef = [CHR 0x0D, CHR 0x7F, CHR 0x04, CHR 0x01, CHR 0x02, CHR 0xFF, CHR 0x80,
                 CHR 0x00, CHR 0x01, CHR 0x10, CHR 0x01, CHR 0x10, CHR 0x00, CHR 0x00]"
  by (simp add: mapTypeDef_def mapWireType_def mapTypeId_def tInterface_def writeMessage_def
      encodeInt_def encodeUint_def be_bytes.simps Let_def word_sless_alt char_of_def
      bit_Suc_0_iff)

lemma length_mapTypeDef: "length mapTypeDef = 14"
  by (simp add: mapTypeDef_bytes)

lemma length_mapTypeDef_body: "length (encodeInt (- mapTypeId) @ mapWireType) < 18446744073709551616"
proof -
  have "length (encodeInt (- mapTypeId) @ mapWireType) \<le> length mapTypeDef"
    by (simp add: mapTypeDef_def writeMessage_def)
  then show ?thesis by (simp add: length_mapTypeDef)
qed

lemma decodeDelta_Cons:
  "(of_char c :: nat) \<le> 0x7F \<Longrightarrow>
   decodeDelta k (c # rest) = (if of_nat (of_char c) = k then Inr rest else Inl ErrBadTypeDef)"
  by (simp add: decodeDelta_def)

lemma recvType_mapWireType: "recvType mapWireType = Inr (tInterface, tInterface)"
  by (simp add: recvType_def decodeMapType_def decodeCommonType_def decodeId_def
      decodeDelta_Cons mapWireType_def decodeInt_encodeInt)

lemma typeId_of_mapTypeId: "typeId_of mapTypeId = 64 \<and> typeId_of (- mapTypeId) = - 64"
  by (simp add: typeId_of_def mapTypeId_def)

lemma decodeTypeSequence_mapTypeDef:
  "decodeTypeSequence (mapTypeDef @ rest) =
     (case recvMessage rest of
        Inl e \<Rightarrow> Inl (if e = ErrEOF then ErrUnexpectedEOF else e)
      | Inr (msg1, rest1) \<Rightarrow>
          (case decodeInt msg1 of
             Inl e \<Rightarrow> Inl e
           | Inr (j, buf1) \<Rightarrow>
               if typeId_of j < 0 then Inl ErrBadTypeDef
               else Inr (typeId_of j, Some (64, tInterface, tInterface), buf1)))"
proof -
  have "recvMessage (mapTypeDef @ rest) = Inr (encodeInt (- mapTypeId) @ mapWireType, rest)"
    unfolding mapTypeDef_def by (rule recvMessage_writeMessage) (rule length_mapTypeDef_body)
  then show ?thesis
    by (simp add: decodeTypeSequence_def decodeInt_encodeInt typeId_of_mapTypeId
        recvType_mapWireType split: sum.splits prod.splits)
qed

lemma sint_count: "n < 9223372036854775808 \<Longrightarrow> nat (sint (word_of_nat n :: 64 word)) = n"
  by (simp add: signed_of_nat signed_take_bit_int_eq_self)

lemma Decode_Encode:
  assumes "Encode m = Inr b" and "length b < 18446744073709551616"
  shows "Decode b s = (None, fold (\<lambda>kv. AList.update (fst kv) (snd kv)) m s)"
proof -
  from assms(1) obtain r where r: "encodeElems m = Inr r"
    and b: "b = mapTypeDef @ writeMessage (encodeInt mapTypeId @ encodeUint 0 @ encodeUint (of_nat (length m)) @ r)"
    by (auto simp add: Encode_def encodeMap_def split: sum.splits)
  define msg where "msg = encodeInt mapTypeId @ encodeUint 0 @ encodeUint (of_nat (length m)) @ r"
  from b have b': "b = mapTypeDef @ writeMessage msg"
    by (simp add: msg_def)
  from b' assms(2) have lmsg: "length msg < 18446744073709551616"
    by (simp add: writeMessage_def)
  from lmsg have lr: "length r < 18446744073709551616" by (simp add: msg_def)
  from encodeElems_bounds [OF r] lr have em: "list_all (\<lambda>(k, v). encodable k \<and> encodable v) m"
    and lm: "length m < 9223372036854775808" by simp_all
  from lm have um: "nat (sint (word_of_nat (length m) :: 64 word)) = length m" by (rule sint_count)
  have rm: "recvMessage (writeMessage msg) = Inr (msg, [])"
    using recvMessage_writeMessage [OF lmsg, of "[]"] by simp
  have ts: "decodeTypeSequence b =
      Inr (64, Some (64, tInterface, tInterface), encodeUint 0 @ encodeUint (of_nat (length m)) @ r)"
    unfolding b' decodeTypeSequence_mapTypeDef rm
    by (simp add: msg_def decodeInt_encodeInt typeId_of_mapTypeId)
  have de: "decodeElems (length m) r s = (None, fold (\<lambda>kv. AList.update (fst kv) (snd kv)) m s)"
    using decodeElems_encodeElems [OF em r, of "[]" s] by simp
  have dm: "decodeMap (encodeUint (of_nat (length m)) @ r) s =
      (None, fold (\<lambda>kv. AList.update (fst kv) (snd kv)) m s)"
    by (simp add: decodeMap_def decodeUint_encodeUint um de)
  show ?thesis
    by (simp add: Decode_def ts decodeUint_encodeUint dm)
qed

subsection \<open>Truncated streams\<close>





subsection \<open>Evaluation on concrete input\<close>

lemmas enc_eval = encodeUint_def encodeInt_def encString_def writeMessage_def
  interfaceBytes_def encodeMap_def mapTypeDef_bytes mapTypeId_def Encode_def
  be_bytes.simps Let_def word_sless_alt char_of_def bit_Suc_0_iff

lemma decodeElems_unfold:
  "decodeElems n buf m =
     (if n = 0 then (None, m)
      else case decodeInterface buf of
        Inl e \<Rightarrow> (Some e, m)
      | Inr (k, buf1) \<Rightarrow>
          (case decodeInterface buf1 of
             Inl e \<Rightarrow> (Some e, m)
           | Inr (v, buf2) \<Rightarrow> decodeElems (n - 1) buf2 (AList.update k v m)))"
  by (cases n) (auto split: sum.splits)

lemmas dec_eval = decodeInt_def decodeValue_def decodeInterface_def decodeMap_def
  mapTypeDef_bytes tInterface_def recvMessage_def recvType_def decodeMapType_def
  decodeCommonType_def decodeId_def decodeDelta_def typeId_of_def decodeTypeSequence_def
  Decode_def nameToConcreteType_def be_val_def decodeElems_unfold

lemma Encode_sample_map: "Encode sample_map = Inr sample_bytes"
  by (simp add: sample_map_def sample_bytes_def enc_eval)


text \<open>
  The decoder takes the id of the map type from the stream: the stream of
  \<^verbatim>\<open>{"b": 2}\<close> written by a process in which the map type has the id 65 decodes as
  well. A stream that ends after the type definition is an unexpected end of file. A
  count of $2^{63}$ entries is a negative \<^verbatim>\<open>int\<close>, and decoding succeeds without
  reading any entry.
\<close>

lemma Decode_other_id:
  "Decode ([CHR 0x0E, CHR 0xFF, CHR 0x81, CHR 0x04, CHR 0x01, CHR 0x02, CHR 0xFF, CHR 0x82,
            CHR 0x00, CHR 0x01, CHR 0x10, CHR 0x01, CHR 0x10, CHR 0x00, CHR 0x00]
           @ [CHR 0x18, CHR 0xFF, CHR 0x82, CHR 0x00, CHR 0x01]
           @ [CHR 0x06] @ ''string'' @ [CHR 0x0C, CHR 0x03, CHR 0x00, CHR 0x01] @ ''b''
           @ [CHR 0x03] @ ''int'' @ [CHR 0x04, CHR 0x02, CHR 0x00, CHR 0x04]) [] =
     (None, [(GString ''b'', GInt 2)])"
  by (simp add: dec_eval)

lemma Decode_no_value: "Decode mapTypeDef m = (Some ErrUnexpectedEOF, m)"
  by (simp add: dec_eval)

lemma Decode_negative_count:
  "Decode (mapTypeDef @ [CHR 0x0C, CHR 0xFF, CHR 0x80, CHR 0x00, CHR 0xF8, CHR 0x80, CHR 0x00,
                         CHR 0x00, CHR 0x00, CHR 0x00, CHR 0x00, CHR 0x00, CHR 0x00]) m = (None, m)"
  by (simp add: dec_eval)

section \<open>Serialize and Deserialize\<close>

text \<open>
  The round trip, for the values of the model (nil, \<^verbatim>\<open>bool\<close>, \<^verbatim>\<open>int\<close> and
  \<^verbatim>\<open>string\<close> keys and values): when \<^verbatim>\<open>Serialize\<close> succeeds on a store holding
  the mapping \<open>M\<close> (its keys distinct, as in every Go map) and returns the bytes \<open>b\<close>
  (shorter than $2^{64}$, as every Go slice is), \<^verbatim>\<open>Deserialize(b)\<close> on a fresh empty
  store succeeds and leaves a mapping equal to \<open>M\<close>: the same keys, each bound to the
  same value, none missing and none added.
\<close>

lemma Deserialize_Serialize:
  assumes "distinct (map fst (values_map rs))"
    and "fst (Store_Serialize rs) = Inr b"
    and "length b < 18446744073709551616"
  shows "fst (Store_Deserialize b NewStore) = None \<and>
         map_of (values_map (snd (Store_Deserialize b NewStore))) = map_of (values_map rs)"
proof -
  from assms(2) have e: "Encode (values_map rs) = Inr b" by (simp add: Store_Serialize_def)
  have "Decode b [] = (None, fold (\<lambda>kv. AList.update (fst kv) (snd kv)) (values_map rs) [])"
    by (rule Decode_Encode [OF e assms(3)])
  moreover have "map_of (fold (\<lambda>kv. AList.update (fst kv) (snd kv)) (values_map rs) []) =
      map_of (values_map rs)"
    using map_of_fold_update [OF assms(1), of "[]"] by simp
  ultimately show ?thesis
    by (simp add: Store_Deserialize_def NewStore_def ev_def)
qed

lemma Deserialize_Serialize_sample:
  "fst (Store_Serialize \<lparr>lock_trace = [], values_map = sample_map\<rparr>) = Inr sample_bytes \<and>
   fst (Store_Deserialize sample_bytes NewStore) = None \<and>
   map_of (values_map (snd (Store_Deserialize sample_bytes NewStore))) = map_of sample_map"
proof -
  have h1: "distinct (map fst (values_map \<lparr>lock_trace = [], values_map = sample_map\<rparr>))"
    by (simp add: sample_map_def)
  have h2: "fst (Store_Serialize \<lparr>lock_trace = [], values_map = sample_map\<rparr>) = Inr sample_bytes"
    by (simp add: Store_Serialize_def Encode_sample_map)
  have h3: "length sample_bytes < 18446744073709551616"
    by (simp add: sample_bytes_def mapTypeDef_bytes)
  from Deserialize_Serialize [OF h1 h2 h3] h2 show ?thesis by simp
qed


lemma Decode_cases:
  "(\<exists>e. \<forall>m. Decode d m = (Some e, m)) \<or> (\<exists>n buf. \<forall>m. Decode d m = decodeElems n buf m)"
proof (cases "decodeTypeSequence d")
  case (Inl e)
  then show ?thesis by (auto simp add: Decode_def)
next
  case (Inr x)
  obtain wireId wire buf where x: "x = (wireId, wire, buf)" by (cases x)
  show ?thesis
  proof (cases "decodeUint buf")
    case (Inl e)
    with Inr x show ?thesis by (auto simp add: Decode_def)
  next
    case db: (Inr db)
    obtain delta buf1 where d1: "db = (delta, buf1)" by (cases db)
    show ?thesis
    proof (cases "decodeUint buf1")
      case (Inl e)
      with Inr x db d1 show ?thesis by (auto simp add: Decode_def decodeMap_def)
    next
      case nb: (Inr nb)
      obtain n buf2 where n2: "nb = (n, buf2)" by (cases nb)
      have "\<forall>m. Decode d m = (Some ErrTypeMismatch, m)"
        if "wire \<noteq> Some (wireId, tInterface, tInterface)"
        using that Inr x by (simp add: Decode_def)
      moreover have "\<forall>m. Decode d m = (Some ErrCorrupted, m)"
        if "wire = Some (wireId, tInterface, tInterface)" "delta \<noteq> 0"
        using that Inr x db d1 by (simp add: Decode_def)
      moreover have "\<forall>m. Decode d m = decodeElems (nat (sint n)) buf2 m"
        if "wire = Some (wireId, tInterface, tInterface)" "delta = 0"
        using that Inr x db d1 nb n2 by (simp add: Decode_def decodeMap_def)
      ultimately show ?thesis by blast
    qed
  qed
qed


lemma Store_Deserialize_eq:
  "Store_Deserialize d rs =
     (fst (Decode d (values_map rs)),
      rs\<lparr>lock_trace := lock_trace rs @ [WriteValues], values_map := snd (Decode d (values_map rs))\<rparr>)"
  by (simp add: Store_Deserialize_def ev_def split_beta)




subsection \<open>What the decoder leaves in the map\<close>

text \<open>
  Every value the decoder produces can be encoded again, and a map it has filled has
  distinct keys.
\<close>

lemma unat_lt_2_64: "unat (n :: 64 word) < 18446744073709551616"
  using unsigned_less [of n, where 'a = nat] by simp

lemma decValue_encodable: "decValue t buf = Inr (v, rest) \<Longrightarrow> encodable v"
  using unat_lt_2_64
  by (cases t) (auto split: sum.splits if_splits simp add: min_def intro: le_less_trans)

lemma decodeInterface_encodable:
  assumes "decodeInterface buf = Inr (v, rest)"
  shows "encodable v"
proof -
  from assms consider "v = GNil" | t buf' where "decValue t buf' = Inr (v, rest)"
    by (auto simp add: decodeInterface_def decodeValue_def Let_def
        split: sum.splits if_splits option.splits)
  then show ?thesis
  proof cases
    case 1
    then show ?thesis by simp
  next
    case 2
    then show ?thesis by (rule decValue_encodable)
  qed
qed

lemma list_all_update:
  "list_all (\<lambda>(k, v). P k \<and> P v) m \<Longrightarrow> P k \<Longrightarrow> P v \<Longrightarrow>
   list_all (\<lambda>(k, v). P k \<and> P v) (AList.update k v m)"
  by (induction m) auto


lemma decodeElems_wf:
  "distinct (map fst m) \<and> list_all (\<lambda>(k, v). encodable k \<and> encodable v) m \<Longrightarrow>
   distinct (map fst (snd (decodeElems n buf m))) \<and>
   list_all (\<lambda>(k, v). encodable k \<and> encodable v) (snd (decodeElems n buf m))"
proof (induction n arbitrary: buf m)
  case 0
  then show ?case by simp
next
  case (Suc n)
  show ?case
  proof (cases "decodeInterface buf")
    case (Inl e)
    with Suc.prems show ?thesis by simp
  next
    case (Inr kb)
    obtain k buf1 where kb: "kb = (k, buf1)" by (cases kb)
    show ?thesis
    proof (cases "decodeInterface buf1")
      case (Inl e)
      with Inr kb Suc.prems show ?thesis by simp
    next
      case Inr2: (Inr vb)
      obtain v buf2 where vb: "vb = (v, buf2)" by (cases vb)
      from Inr kb have ek: "encodable k" by (auto dest: decodeInterface_encodable)
      from Inr2 vb have ev: "encodable v" by (auto dest: decodeInterface_encodable)
      from Suc.prems ek ev have
        "distinct (map fst (AList.update k v m)) \<and>
         list_all (\<lambda>(k, v). encodable k \<and> encodable v) (AList.update k v m)"
        by (simp add: distinct_update list_all_update)
      from Suc.IH [OF this, of buf2] show ?thesis by (simp add: Inr kb Inr2 vb)
    qed
  qed
qed

lemma Decode_wf:
  "distinct (map fst (snd (Decode d []))) \<and>
   list_all (\<lambda>(k, v). encodable k \<and> encodable v) (snd (Decode d []))"
proof -
  from Decode_cases [of d] consider
    (err) e where "\<forall>m. Decode d m = (Some e, m)"
  | (ok) n buf where "\<forall>m. Decode d m = decodeElems n buf m"
    by blast
  then show ?thesis
  proof cases
    case err
    then show ?thesis by simp
  next
    case ok
    with decodeElems_wf [of "[]" n buf] show ?thesis by simp
  qed
qed



lemma encodeElems_unregistered:
  "(k, GOther n) \<in> set m \<Longrightarrow> \<exists>e. encodeElems m = Inl e"
proof (induction m)
  case Nil
  then show ?case by simp
next
  case (Cons kv m)
  obtain k' v' where kv: "kv = (k', v')" by (cases kv)
  show ?case
  proof (cases "(k, GOther n) = kv")
    case True
    with kv show ?thesis by (auto split: sum.splits)
  next
    case False
    with Cons obtain e where "encodeElems m = Inl e" by auto
    then show ?thesis by (auto simp add: kv split: sum.splits)
  qed
qed

lemma Encode_unregistered: "(k, GOther n) \<in> set m \<Longrightarrow> \<exists>e. Encode m = Inl e"
  using encodeElems_unregistered [of k n m] by (auto simp add: Encode_def encodeMap_def)

section \<open>Durations in seconds\<close>

text \<open>
  A whole number of seconds is its own \<^verbatim>\<open>float64\<close>, so that
  \<^verbatim>\<open>int64(d.Seconds())\<close> gives it back. Other durations are rounded, not cut:
  16777216.999999999 seconds are nearer to the \<^verbatim>\<open>float64\<close> 16777217 than to the
  one before it, $16777217 - 2^{-28}$.
\<close>

lemma float64_whole: "fst (float64 n (Suc 0)) div 2 ^ snd (float64 n (Suc 0)) = n"
  by (simp add: float64_def round_half_even_def)

lemma Seconds_whole: "Seconds (k * 1000000000) = k"
proof -
  have a: "nat \<bar>k * 1000000000\<bar> = nat \<bar>k\<bar> * 1000000000"
    by (simp add: abs_mult nat_mult_distrib)
  have z: "float64 0 1000000000 = (0, 0)" by (simp add: float64_def)
  have "Seconds (k * 1000000000) = sgn k * int (nat \<bar>k\<bar>)"
    by (simp add: Seconds_def a z float64_whole sgn_mult split_beta)
  then show ?thesis by (cases "k < 0") (simp_all add: sgn_if)
qed

lemma float64_nsec: "float64 999999999 1000000000 = (9007199245733793, 53)"
proof -
  have "float64_scale 999999999 1000000000 = 53"
    by (simp add: float64_scale_def floor_log2.simps)
  then show ?thesis by (simp add: float64_def round_half_even_def Let_def)
qed

lemma float64_sum:
  "float64 151115736459027892572065 9007199254740992 = (4503599895805952, 28)"
proof -
  have "float64_scale 151115736459027892572065 9007199254740992 = 28"
    by (simp add: float64_scale_def floor_log2.simps)
  then show ?thesis by (simp add: float64_def round_half_even_def Let_def)
qed

lemma Seconds_rounds: "Seconds 16777216999999999 = 16777217"
  by (simp add: Seconds_def float64_nsec float64_sum)

lemma seconds_Duration_exact:
  assumes "- 9223372036 \<le> seconds" and "seconds \<le> 9223372036"
  shows "seconds_Duration seconds = seconds * 1000000000"
proof -
  have "word_of_int seconds * 1000000000 = (word_of_int (seconds * 1000000000) :: 64 word)"
    by simp
  moreover from assms have "- (2 ^ 63) \<le> seconds * 1000000000" "seconds * 1000000000 < 2 ^ 63"
    by simp_all
  ultimately show ?thesis
    by (simp only: seconds_Duration_def sint_sbintrunc') (simp add: signed_take_bit_int_eq_self)
qed

section \<open>The load and persist steps of the bridge\<close>

lemma values_map_NewStore: "values_map NewStore = []"
  by (simp add: NewStore_def)

lemma Database_get_eq:
  "Database_get sid NewStore db =
     (case Service_Get sid (redis db) of
        Inl err \<Rightarrow> (NewStore, db)
      | Inr data \<Rightarrow>
          (\<lparr>lock_trace = [WriteValues], values_map = snd (Decode data [])\<rparr>,
           case fst (Decode data []) of
             None \<Rightarrow> db
           | Some err \<Rightarrow> db\<lparr>golog := golog db @ [LogError err]\<rparr>))"
  by (simp add: Database_get_def Store_Deserialize_eq NewStore_def split: sum.splits option.splits)

lemma Database_get_redis: "redis (snd (Database_get sid NewStore db)) = redis db"
  by (simp add: Database_get_eq split: sum.splits option.splits)

lemma Database_get_wf:
  "distinct (map fst (values_map (fst (Database_get sid NewStore db)))) \<and>
   list_all (\<lambda>(k, v). encodable k \<and> encodable v) (values_map (fst (Database_get sid NewStore db)))"
  using Decode_wf by (simp add: Database_get_eq values_map_NewStore split: sum.splits)

lemma Database_set_redis:
  assumes "Encode (values_map store) = Inr b"
  shows "redis (Database_set sid secs store db) = snd (Service_Set sid b secs (redis db))"
  using assms
  by (simp add: Database_set_def Store_Serialize_def split: prod.splits option.splits)

lemma Database_get_stored:
  assumes "Service_Get sid (redis db) = Inr b" and "Decode b [] = (None, m)"
  shows "Database_get sid NewStore db = (\<lparr>lock_trace = [WriteValues], values_map = m\<rparr>, db)"
  using assms by (simp add: Database_get_eq)


lemma Get_after_set:
  assumes enc: "Encode m = Inr b" and len: "length b < 18446744073709551616"
    and dist: "distinct (map fst m)" and m: "values_map store = m"
    and load: "Service_Get sid (snd (Service_Set sid b secs (redis db))) = Inr b"
  shows "fst (Database_Get sid key (Database_set sid secs store db)) = index m (GString key)"
proof -
  let ?db = "Database_set sid secs store db"
  from Database_set_redis [of store b sid secs db] enc m load
  have l: "Service_Get sid (redis ?db) = Inr b" by simp
  have d: "Decode b [] = (None, fold (\<lambda>kv. AList.update (fst kv) (snd kv)) m [])"
    by (rule Decode_Encode [OF enc len])
  have "map_of (fold (\<lambda>kv. AList.update (fst kv) (snd kv)) m []) = map_of m"
    using map_of_fold_update [OF dist, of "[]"] by simp
  with Database_get_stored [OF l d] show ?thesis
    by (simp add: Database_Get_def index_def)
qed

section \<open>Set, Get and Delete through the bridge\<close>

text \<open>
  C2. \<^verbatim>\<open>Set(sid, lifetime, key, value)\<close> followed by \<^verbatim>\<open>Get(sid, key)\<close> returns
  \<open>value\<close>, when the persist and the load round trip succeed: the snapshot with the
  new binding encodes, to bytes \<open>b\<close> (shorter than $2^{64}$, as every Go slice is), the
  service accepts \<open>b\<close>, and then gives \<open>b\<close> back. The spec's \<^verbatim>\<open>"k"\<close> and
  \<^verbatim>\<open>"v"\<close> are any key and any value.
\<close>

theorem Set_then_Get:
  assumes "Encode (AList.update (GString key) val (values_map (fst (Database_get sid NewStore db)))) = Inr b"
    and "length b < 18446744073709551616"
    and "Service_Set sid b (Seconds (DurationUntilExpiration lifetime now)) (redis db) = (None, s)"
    and "Service_Get sid s = Inr b"
  shows "fst (Database_Get sid key (Database_Set sid lifetime key val immutable now db)) = val"
proof -
  obtain store db1 where g: "Database_get sid NewStore db = (store, db1)"
    by (cases "Database_get sid NewStore db")
  let ?m = "AList.update (GString key) val (values_map store)"
  let ?db2 = "db1\<lparr>golog := golog db1 @ [LogDebug sid key val ?m]\<rparr>"
  let ?secs = "Seconds (DurationUntilExpiration lifetime now)"
  from Database_get_redis [of sid db] g have r: "redis db1 = redis db" by simp
  from Database_get_wf [of sid db] g have "distinct (map fst (values_map store))" by simp
  then have dist: "distinct (map fst ?m)" by (rule distinct_update)
  from assms(1) g have enc: "Encode ?m = Inr b" by simp
  from assms(3,4) r have load: "Service_Get sid (snd (Service_Set sid b ?secs (redis ?db2))) = Inr b"
    by simp
  have "fst (Database_Get sid key (Database_set sid ?secs (store\<lparr>values_map := ?m\<rparr>) ?db2))
      = index ?m (GString key)"
    by (rule Get_after_set [OF enc assms(2) dist _ load]) simp
  then show ?thesis
    by (simp add: Database_Set_def g Let_def index_def update_conv')
qed

lemma Encode_kv: "Encode [(GString ''k'', GString ''v'')] = Inr kv_bytes"
  by (simp add: kv_bytes_def enc_eval)



lemma get_empty_db: "Database_get ''sid'' NewStore empty_db = (NewStore, empty_db)"
  by (simp add: Database_get_eq empty_db_def Service_Get_def)


theorem Set_then_Get_witness:
  "Encode (AList.update (GString ''k'') (GString ''v'')
      (values_map (fst (Database_get ''sid'' NewStore empty_db)))) = Inr kv_bytes \<and>
   length kv_bytes < 18446744073709551616 \<and>
   Service_Set ''sid'' kv_bytes (Seconds (DurationUntilExpiration \<lparr>Time = 60000000000\<rparr> 0))
      (redis empty_db) = (None, redis kv_db\<lparr>calls := [CallSet ''sid'' kv_bytes 60]\<rparr>) \<and>
   Service_Get ''sid'' (redis kv_db\<lparr>calls := [CallSet ''sid'' kv_bytes 60]\<rparr>) = Inr kv_bytes \<and>
   fst (Database_Get ''sid'' ''k''
      (Database_Set ''sid'' \<lparr>Time = 60000000000\<rparr> ''k'' (GString ''v'') False 0 empty_db)) = GString ''v''"
proof -
  have h1: "Encode (AList.update (GString ''k'') (GString ''v'')
      (values_map (fst (Database_get ''sid'' NewStore empty_db)))) = Inr kv_bytes"
    by (simp add: get_empty_db values_map_NewStore Encode_kv)
  have h2: "length kv_bytes < 18446744073709551616"
    by (simp add: kv_bytes_def mapTypeDef_bytes)
  have h3: "Service_Set ''sid'' kv_bytes (Seconds (DurationUntilExpiration \<lparr>Time = 60000000000\<rparr> 0))
      (redis empty_db) = (None, redis kv_db\<lparr>calls := [CallSet ''sid'' kv_bytes 60]\<rparr>)"
    using Seconds_whole [of 60]
    by (simp add: Service_Set_def empty_db_def kv_db_def DurationUntilExpiration_def)
  have h4: "Service_Get ''sid'' (redis kv_db\<lparr>calls := [CallSet ''sid'' kv_bytes 60]\<rparr>) = Inr kv_bytes"
    by (simp add: Service_Get_def kv_db_def)
  from Set_then_Get [OF h1 h2 h3 h4] h1 h2 h3 h4 show ?thesis by simp
qed



text \<open>
  C9. \<^verbatim>\<open>Database.Get\<close> on a session identifier that is absent from the service, so
  that the service's \<^verbatim>\<open>Get\<close> fails, returns nil, the sentinel for absent, and nothing
  else happens; \<^verbatim>\<open>Store.Get\<close> on a key that is not in the mapping returns nil.
  Neither has an error to return.
\<close>

theorem Get_absent:
  "(Service_Get sid (redis db) = Inl err \<longrightarrow> Database_Get sid key db = (GNil, db)) \<and>
   (map_of (values_map rs) k = None \<longrightarrow> fst (Store_Get k rs) = GNil)"
  by (simp add: Database_Get_def Database_get_eq index_def values_map_NewStore
      Store_Get_def ev_def Let_def)

theorem Get_absent_witness:
  "entries (redis empty_db) ''sid'' = None \<and>
   Service_Get ''sid'' (redis empty_db) = Inl (ErrKeyNotFound ''sid'') \<and>
   Database_Get ''sid'' ''k'' empty_db = (GNil, empty_db) \<and>
   map_of (values_map NewStore) (GString ''k'') = None \<and>
   fst (Store_Get (GString ''k'') NewStore) = GNil"
proof -
  have h0: "entries (redis empty_db) ''sid'' = None" by (simp add: empty_db_def)
  have h1: "Service_Get ''sid'' (redis empty_db) = Inl (ErrKeyNotFound ''sid'')"
    by (simp add: Service_Get_def empty_db_def)
  have h2: "map_of (values_map NewStore) (GString ''k'') = None" by (simp add: values_map_NewStore)
  from Get_absent [where db = empty_db and sid = "''sid''" and key = "''k''" and rs = NewStore
      and k = "GString ''k''" and err = "ErrKeyNotFound ''sid''"] h0 h1 h2
  show ?thesis by simp
qed

section \<open>Failures in the bridge\<close>

lemma update_mem: "(k, v) \<in> set (AList.update k v m)"
  by (rule map_of_SomeD) (simp add: update_conv')

text \<open>
  C7, as the code has it. \<^verbatim>\<open>OnUpdateExpiration\<close> returns the error of the service's
  \<^verbatim>\<open>UpdateTTL\<close>, and \<^verbatim>\<open>Close\<close> that of \<^verbatim>\<open>CloseConnection\<close>. An encode failure
  is not returned: \<^verbatim>\<open>Set\<close> of a value whose type gob has not registered fails to
  serialize, whatever the session held; \<^verbatim>\<open>Database.set\<close> logs the error and returns,
  the service is not called, and \<^verbatim>\<open>Set\<close>, which has no result, returns.
\<close>

theorem encode_error_is_logged:
  "fst (Database_OnUpdateExpiration sid newExpires db) =
     fst (Service_UpdateTTL sid (Seconds newExpires) (redis db)) \<and>
   (\<exists>e. Encode (AList.update (GString key) (GOther n)
            (values_map (fst (Database_get sid NewStore db)))) = Inl e \<and>
         golog (Database_Set sid lifetime key (GOther n) immutable now db) =
           golog (snd (Database_get sid NewStore db)) @
             [LogDebug sid key (GOther n)
                (AList.update (GString key) (GOther n)
                   (values_map (fst (Database_get sid NewStore db)))),
              LogError e]) \<and>
   redis (Database_Set sid lifetime key (GOther n) immutable now db) = redis db \<and>
   fst (Database_Close db) = fst (Service_CloseConnection (redis db))"
proof -
  obtain store db1 where g: "Database_get sid NewStore db = (store, db1)"
    by (cases "Database_get sid NewStore db")
  let ?m = "AList.update (GString key) (GOther n) (values_map store)"
  from Encode_unregistered [OF update_mem] obtain e where e: "Encode ?m = Inl e" by blast
  from Database_get_redis [of sid db] g have r: "redis db1 = redis db" by simp
  have s: "Database_Set sid lifetime key (GOther n) immutable now db =
      db1\<lparr>golog := golog db1 @ [LogDebug sid key (GOther n) ?m, LogError e]\<rparr>"
    using e by (simp add: Database_Set_def g Let_def Database_set_def Store_Serialize_def)
  have u: "fst (Database_OnUpdateExpiration sid newExpires db) =
      fst (Service_UpdateTTL sid (Seconds newExpires) (redis db))"
    by (simp add: Database_OnUpdateExpiration_def split_beta)
  have c: "fst (Database_Close db) = fst (Service_CloseConnection (redis db))"
    by (simp add: Database_Close_def closeDB_def split_beta)
  from s e r g u c show ?thesis by simp
qed

text \<open>
  C7, as stated, fails: on a fresh session, \<^verbatim>\<open>Set("sid", lifetime, "k", v)\<close> with
  \<open>v\<close> of an unregistered type makes \<^verbatim>\<open>Serialize\<close> fail, and all that comes of the
  error is a line in the log.
\<close>

theorem Set_swallows_encode_error:
  "fst (Store_Serialize \<lparr>lock_trace = [], values_map = [(GString ''k'', GOther 0)]\<rparr>) =
     Inl (ErrTypeNotRegistered 0) \<and>
   Database_Set ''sid'' \<lparr>Time = 60000000000\<rparr> ''k'' (GOther 0) False 0 empty_db =
     empty_db\<lparr>golog := [LogDebug ''sid'' ''k'' (GOther 0) [(GString ''k'', GOther 0)],
                         LogError (ErrTypeNotRegistered 0)]\<rparr>"
proof -
  have e: "Encode [(GString ''k'', GOther 0)] = Inl (ErrTypeNotRegistered 0)"
    by (simp add: Encode_def encodeMap_def)
  have g: "golog empty_db = []" by (simp add: empty_db_def)
  have "Database_Set ''sid'' \<lparr>Time = 60000000000\<rparr> ''k'' (GOther 0) False 0 empty_db =
      empty_db\<lparr>golog := golog empty_db @
        [LogDebug ''sid'' ''k'' (GOther 0) [(GString ''k'', GOther 0)],
         LogError (ErrTypeNotRegistered 0)]\<rparr>"
    by (simp add: Database_Set_def get_empty_db values_map_NewStore Let_def Database_set_def
        Store_Serialize_def e)
  with e g show ?thesis by (simp add: Store_Serialize_def)
qed







section \<open>Acquire\<close>

text \<open>
  C4. Let the service report \<open>(seconds, hasExpiration, found)\<close> for the session.
  When the entry is found and has an expiration, \<^verbatim>\<open>Acquire\<close> returns the time
  \<open>now\<close> plus \<^verbatim>\<open>time.Duration(seconds) * time.Second\<close>, a product of two
  \<^verbatim>\<open>int64\<close>: \<open>now\<close> plus \<open>seconds\<close> times $10^9$ nanoseconds for every
  number of seconds that a \<^verbatim>\<open>Duration\<close> can hold. Otherwise, when the entry is absent
  and when it is found without an expiration, \<^verbatim>\<open>Acquire\<close> returns the empty
  \<^verbatim>\<open>LifeTime\<close>. When the entry is found nothing is written. When it is not found,
  \<^verbatim>\<open>Acquire\<close> first asks the service to set the entry to the empty payload with
  the time to live \<^verbatim>\<open>int64(defaultExpires.Seconds())\<close>, which is
  \<^verbatim>\<open>defaultExpires\<close> itself when that is a whole number of seconds (and 16777217
  for 16777216.999999999 seconds); a reachable service then holds the empty payload with
  that time to live.
\<close>

theorem Acquire_lifetime:
  assumes "Service_TTL sid (redis db) = (seconds, hasExpiration, found)"
  shows "fst (Database_Acquire sid expires now db) =
           (if found \<and> hasExpiration
            then \<lparr>Time = now + sint (word_of_int seconds * 1000000000 :: 64 word)\<rparr>
            else \<lparr>Time = 0\<rparr>) \<and>
         (found \<and> hasExpiration \<and> - 9223372036 \<le> seconds \<and> seconds \<le> 9223372036 \<longrightarrow>
            fst (Database_Acquire sid expires now db) = \<lparr>Time = now + seconds * 1000000000\<rparr>) \<and>
         (found \<longrightarrow> snd (Database_Acquire sid expires now db) = db) \<and>
         (\<not> found \<longrightarrow>
            calls (redis (snd (Database_Acquire sid expires now db))) =
              calls (redis db) @ [CallSet sid [] (Seconds expires)]) \<and>
         (\<not> found \<and> expires = whole * 1000000000 \<longrightarrow>
            calls (redis (snd (Database_Acquire sid expires now db))) =
              calls (redis db) @ [CallSet sid [] whole]) \<and>
         (\<not> found \<and> online (redis db) \<and> 0 < Seconds expires \<longrightarrow>
            entries (redis (snd (Database_Acquire sid expires now db))) sid =
              Some \<lparr>payload = [], ttl = Some (Seconds expires)\<rparr>)"
proof -
  have r: "fst (Database_Acquire sid expires now db) =
      (if found \<and> hasExpiration
       then \<lparr>Time = now + sint (word_of_int seconds * 1000000000 :: 64 word)\<rparr>
       else \<lparr>Time = 0\<rparr>)"
    using assms
    by (auto simp add: Database_Acquire_def seconds_Duration_def LifeTime_empty_def
        split: prod.splits option.splits)
  have e: "fst (Database_Acquire sid expires now db) = \<lparr>Time = now + seconds * 1000000000\<rparr>"
    if "found" "hasExpiration" "- 9223372036 \<le> seconds" "seconds \<le> 9223372036"
    using assms that seconds_Duration_exact [OF that(3,4)]
    by (simp add: Database_Acquire_def)
  have u: "snd (Database_Acquire sid expires now db) = db" if "found"
    using assms that by (simp add: Database_Acquire_def)
  have c: "calls (redis (snd (Database_Acquire sid expires now db))) =
      calls (redis db) @ [CallSet sid [] (Seconds expires)]" if "\<not> found"
    using assms that
    by (auto simp add: Database_Acquire_def Service_Set_def Let_def split: prod.splits option.splits)
  have w: "calls (redis (snd (Database_Acquire sid expires now db))) =
      calls (redis db) @ [CallSet sid [] whole]" if "\<not> found" "expires = whole * 1000000000"
    using c [OF that(1)] that(2) by (simp add: Seconds_whole)
  have h: "entries (redis (snd (Database_Acquire sid expires now db))) sid =
      Some \<lparr>payload = [], ttl = Some (Seconds expires)\<rparr>"
    if "\<not> found" "online (redis db)" "0 < Seconds expires"
    using assms that
    by (auto simp add: Database_Acquire_def Service_Set_def Let_def split: prod.splits option.splits)
  from r e u c w h show ?thesis by blast
qed

theorem Acquire_lifetime_witness:
  "Service_TTL ''sid'' (redis empty_db) = (- 2, False, False) \<and>
   fst (Database_Acquire ''sid'' 30000000000 1000 empty_db) = \<lparr>Time = 0\<rparr> \<and>
   calls (redis (snd (Database_Acquire ''sid'' 30000000000 1000 empty_db))) = [CallSet ''sid'' [] 30] \<and>
   entries (redis (snd (Database_Acquire ''sid'' 30000000000 1000 empty_db))) ''sid'' =
     Some \<lparr>payload = [], ttl = Some 30\<rparr> \<and>
   calls (redis (snd (Database_Acquire ''sid'' 16777216999999999 1000 empty_db))) =
     [CallSet ''sid'' [] 16777217] \<and>
   Service_TTL ''sid'' (redis kv_db) = (60, True, True) \<and>
   Database_Acquire ''sid'' 30000000000 1000 kv_db = (\<lparr>Time = 60000001000\<rparr>, kv_db)"
proof -
  have h1: "Service_TTL ''sid'' (redis empty_db) = (- 2, False, False)"
    by (simp add: Service_TTL_def empty_db_def)
  have h2: "Service_TTL ''sid'' (redis kv_db) = (60, True, True)"
    by (simp add: Service_TTL_def kv_db_def)
  have s: "Seconds 30000000000 = 30" using Seconds_whole [of 30] by simp
  have o: "online (redis empty_db)" "calls (redis empty_db) = []" by (simp_all add: empty_db_def)
  from Acquire_lifetime [OF h1, where expires = 30000000000 and now = 1000 and whole = 30]
    Acquire_lifetime [OF h1, where expires = 16777216999999999 and now = 1000]
    Acquire_lifetime [OF h2, where expires = 30000000000 and now = 1000 and whole = 30]
    h1 h2 s o Seconds_rounds
  show ?thesis by (simp add: prod_eq_iff)
qed

section \<open>Store: errors, absent keys, locks\<close>

text \<open>
  C10. \<^verbatim>\<open>Store.Set\<close> and \<^verbatim>\<open>Store.Delete\<close> return a nil error for every key and
  value; what they do is bind the key, or remove it.
\<close>

theorem Store_Set_Delete_return_nil:
  "fst (Store_Set key val rs) = None \<and>
   map_of (values_map (snd (Store_Set key val rs))) = (map_of (values_map rs))(key \<mapsto> val) \<and>
   fst (Store_Delete key rs) = None \<and>
   map_of (values_map (snd (Store_Delete key rs))) = (map_of (values_map rs))(key := None)"
  by (simp add: Store_Set_def Store_Delete_def ev_def Let_def update_conv' delete_conv')

text \<open>
  C8. The claim is that \<^verbatim>\<open>Set\<close>, \<^verbatim>\<open>Delete\<close>, \<^verbatim>\<open>Flush\<close> and \<^verbatim>\<open>Deserialize\<close>
  hold the exclusive lock while they access the map, and \<^verbatim>\<open>Get\<close> and
  \<^verbatim>\<open>Serialize\<close> the shared lock. The first three and \<^verbatim>\<open>Get\<close> do;
  \<^verbatim>\<open>Serialize\<close> reads the map and \<^verbatim>\<open>Deserialize\<close> writes it without touching the
  mutex.
\<close>

theorem Serialize_Deserialize_take_no_lock:
  "lock_trace (snd (Store_Serialize rs)) = lock_trace rs @ [ReadValues] \<and>
   lock_trace (snd (Store_Deserialize d rs)) = lock_trace rs @ [WriteValues] \<and>
   lock_trace (snd (Store_Set key val rs)) = lock_trace rs @ [Lock, WriteValues, Unlock] \<and>
   lock_trace (snd (Store_Delete key rs)) = lock_trace rs @ [Lock, WriteValues, Unlock] \<and>
   lock_trace (snd (Store_Flush rs)) = lock_trace rs @ [Lock, WriteValues, Unlock] \<and>
   lock_trace (snd (Store_Get key rs)) = lock_trace rs @ [RLock, ReadValues, RUnlock]"
  by (simp add: Store_Serialize_def Store_Deserialize_def Store_Set_def Store_Delete_def
      Store_Flush_def Store_Get_def ev_def Let_def split: prod.splits option.splits)

end
